theory Spec2Isabelle
  imports Main "HOL-Library.Word"
begin

section \<open>Durations and token responses\<close>

text \<open>
  \<^verbatim>\<open>time.Duration\<close> is an \<^verbatim>\<open>int64\<close> count of nanoseconds: arithmetic wraps
  around, comparisons are signed (\<open>sint\<close>). \<^verbatim>\<open>TokenResponse.ExpiresIn\<close> is a Go
  \<^verbatim>\<open>int\<close>, 64 bits wide on the 64-bit platforms, so that the conversion
  \<^verbatim>\<open>time.Duration(token.ExpiresIn)\<close> keeps its bits.
\<close>

type_synonym Duration = "64 word"

definition Second :: Duration where
  "Second = 1000000000"

definition Minute :: Duration where
  "Minute = 60 * Second"

record TokenResponse =
  AccessToken :: string
  ExpiresIn :: "64 word"
  TokenType :: string
  Scope :: string

text \<open>A Go \<^verbatim>\<open>error\<close> value is represented by its message; \<open>None\<close> is the nil error.\<close>

type_synonym error = string

text \<open>
  \<^verbatim>\<open>TokenProvider.GetNewToken() (*TokenResponse, error)\<close> is the external collaborator.
  Its result is the pair Go returns: the token pointer, \<open>None\<close> when it is nil, and the
  error. Nothing in the interface keeps an implementation from returning a nil token
  with a nil error. The provider is a function of the number of calls made so far,
  which covers every sequence of results the loop can be handed.
\<close>

type_synonym TokenProvider = "nat \<Rightarrow> TokenResponse option \<times> error option"

section \<open>The manager\<close>

text \<open>
  A channel value is a reference to a channel of the runtime; \<^verbatim>\<open>make(chan struct{})\<close>
  allocates a fresh one. Nothing is ever sent on \<^verbatim>\<open>tokenReady\<close>, so all that matters of
  a channel is whether it has been closed.
\<close>

type_synonym chan = nat

text \<open>
  The callback \<^verbatim>\<open>func(token *TokenResponse)\<close> is code of the embedding application.
  It is handed the pointer the manager has just stored, so what it writes through the
  pointer changes the stored credential: \<open>on_token x\<close> is the content it leaves in the
  token object whose content was \<open>x\<close>, or \<open>Inl\<close> when it panics. \<open>on_nil\<close> says whether
  it panics when it is handed a nil pointer. The unexported fields of the manager are
  out of its reach. A callback that does not return is not modelled, nor are writes
  through a token pointer at any other time (by a caller that keeps the result of
  \<^verbatim>\<open>GetFullToken\<close>, or by a callback that keeps its argument).
\<close>

record callback =
  on_token :: "TokenResponse \<Rightarrow> error + TokenResponse"
  on_nil :: "error option"

record TokenManager =
  provider :: TokenProvider
  currentToken :: "TokenResponse option"
  refreshTimer :: "Duration option"
  tokenReady :: chan
  bufferTime :: Duration
  refreshTime :: Duration
  onNewToken :: "callback option"

datatype TokenManagerOption =
    WithBufferTime Duration
  | WithRefreshTime Duration
  | WithOnNewToken "callback option"

fun apply_option :: "TokenManagerOption \<Rightarrow> TokenManager \<Rightarrow> TokenManager" where
  "apply_option (WithBufferTime duration) t = t\<lparr>bufferTime := duration\<rparr>"
| "apply_option (WithRefreshTime duration) t = t\<lparr>refreshTime := duration\<rparr>"
| "apply_option (WithOnNewToken cb) t = t\<lparr>onNewToken := cb\<rparr>"

text \<open>
  The control points of \<^verbatim>\<open>run\<close>, with the loop's local variables \<^verbatim>\<open>token\<close> (a
  pointer, \<open>None\<close> when nil) and \<^verbatim>\<open>refreshTime\<close> where they are live:
  \<^item> \<open>ACQUIRING\<close>: about to call \<^verbatim>\<open>tm.provider.GetNewToken()\<close>;
  \<^item> \<open>RETRY_BACKOFF d\<close>: in \<^verbatim>\<open>time.Sleep(d)\<close> after a failed attempt;
  \<^item> \<open>STORE token\<close>: about to write \<^verbatim>\<open>tm.currentToken\<close> under the lock;
  \<^item> \<open>SIGNAL token\<close>: about to run the \<^verbatim>\<open>select\<close> that closes \<^verbatim>\<open>tm.tokenReady\<close>;
  \<^item> \<open>CALLBACK token\<close>: about to call \<^verbatim>\<open>tm.onNewToken\<close> if it is set;
  \<^item> \<open>SCHEDULE token\<close>: about to compute \<^verbatim>\<open>refreshTime\<close> and create the timer;
  \<^item> \<open>SCHEDULED_WAIT d\<close>: blocked on \<^verbatim>\<open>tm.refreshTimer.C\<close>;
  \<^item> \<open>NEW_GATE d\<close>: about to install a new \<^verbatim>\<open>tokenReady\<close> channel;
  \<^item> \<open>PANICKED\<close>: the goroutine has panicked, which ends the process.
\<close>

datatype pc =
    ACQUIRING
  | RETRY_BACKOFF Duration
  | STORE "TokenResponse option"
  | SIGNAL "TokenResponse option"
  | CALLBACK "TokenResponse option"
  | SCHEDULE "TokenResponse option"
  | SCHEDULED_WAIT Duration
  | NEW_GATE Duration
  | PANICKED

text \<open>
  The state of a manager and its goroutine: the struct, the channels closed so far, the
  next channel to allocate, the control point of \<^verbatim>\<open>run\<close>, the number of calls the
  provider has received and the arguments of the callback invocations. \<open>tokenGate\<close> is a
  history variable that no step reads: the channel that was installed when
  \<open>currentToken\<close> was last written.
\<close>

record sys =
  tm :: TokenManager
  closedChans :: "chan set"
  nextChan :: chan
  pc :: pc
  attempt :: nat
  notified :: "TokenResponse option list"
  tokenGate :: "chan option"

definition NewTokenManager :: "TokenProvider \<Rightarrow> TokenManagerOption list \<Rightarrow> sys" where
  "NewTokenManager p options =
     \<lparr>tm = foldl (\<lambda>t opt. apply_option opt t)
             \<lparr>provider = p, currentToken = None, refreshTimer = None, tokenReady = 0,
              bufferTime = 60 * Second, refreshTime = 59 * Minute, onNewToken = None\<rparr>
             options,
      closedChans = {}, nextChan = 1, pc = ACQUIRING, attempt = 0, notified = [],
      tokenGate = None\<rparr>"

subsection \<open>The statements of the loop\<close>

text \<open>
  The loop is the only writer of the struct. \<^verbatim>\<open>tm.mutex\<close> makes each of its writes one
  atomic step for the readers and has no other effect, so it is not part of the state.
\<close>

definition store_token :: "TokenResponse option \<Rightarrow> sys \<Rightarrow> sys" where
  "store_token token s =
     s\<lparr>tm := (tm s)\<lparr>currentToken := token\<rparr>, tokenGate := Some (tokenReady (tm s))\<rparr>"

text \<open>A receive on a channel nobody sends on completes exactly when it is closed.\<close>

definition recv_ready :: "chan \<Rightarrow> sys \<Rightarrow> bool" where
  "recv_ready c s = (c \<in> closedChans s)"

text \<open>\<^verbatim>\<open>close\<close> of a closed channel panics.\<close>

definition close_chan :: "chan \<Rightarrow> sys \<Rightarrow> error + sys" where
  "close_chan c s =
     (if c \<in> closedChans s then Inl ''close of closed channel''
      else Inr (s\<lparr>closedChans := insert c (closedChans s)\<rparr>))"

definition signalReady :: "sys \<Rightarrow> error + sys" where
  "signalReady s =
     (if recv_ready (tokenReady (tm s)) s then Inr s
      else close_chan (tokenReady (tm s)) s)"

text \<open>
  The call \<^verbatim>\<open>tm.onNewToken(token)\<close>, when the callback is set. At this control point
  \<^verbatim>\<open>tm.currentToken\<close> and the local \<^verbatim>\<open>token\<close> are the same pointer, so the content the
  callback leaves shows through both. The result is the content of the token object
  after the call and the new state; a panic of the callback is not recovered.
\<close>

definition notify :: "TokenResponse option \<Rightarrow> sys \<Rightarrow> error + (TokenResponse option \<times> sys)" where
  "notify token s =
     (case onNewToken (tm s) of
        None \<Rightarrow> Inr (token, s)
      | Some cb \<Rightarrow>
          (case token of
             None \<Rightarrow>
               (case on_nil cb of
                  Some err \<Rightarrow> Inl err
                | None \<Rightarrow> Inr (None, s\<lparr>notified := notified s @ [None]\<rparr>))
           | Some x \<Rightarrow>
               (case on_token cb x of
                  Inl err \<Rightarrow> Inl err
                | Inr x' \<Rightarrow>
                    Inr (Some x', s\<lparr>tm := (tm s)\<lparr>currentToken := Some x'\<rparr>,
                                    notified := notified s @ [Some x]\<rparr>))))"

text \<open>
  The renewal delay. \<^verbatim>\<open>token.ExpiresIn\<close> is read only when no fixed interval is set;
  on a nil token that read is a nil pointer dereference.
\<close>

definition schedule :: "TokenManager \<Rightarrow> TokenResponse option \<Rightarrow> error + Duration" where
  "schedule t token =
     (if 0 < sint (refreshTime t) then Inr (refreshTime t)
      else (case token of
              None \<Rightarrow> Inl ''nil pointer dereference''
            | Some x \<Rightarrow>
                (let r = ExpiresIn x * Second - bufferTime t
                 in if sint r < 0 then Inr (5 * Second) else Inr r)))"

definition new_timer :: "Duration \<Rightarrow> sys \<Rightarrow> sys" where
  "new_timer d s = s\<lparr>tm := (tm s)\<lparr>refreshTimer := Some d\<rparr>\<rparr>"

definition new_gate :: "sys \<Rightarrow> sys" where
  "new_gate s =
     s\<lparr>tm := (tm s)\<lparr>tokenReady := nextChan s\<rparr>, nextChan := Suc (nextChan s)\<rparr>"

subsection \<open>The loop\<close>

text \<open>
  One step of \<^verbatim>\<open>run\<close>: the statement at the control point is executed. A call of the
  provider that returns an error is a failed attempt, whatever token comes with it. The
  steps out of \<open>RETRY_BACKOFF\<close> and \<open>SCHEDULED_WAIT\<close> are the end of the sleep and the
  firing of the timer (a timer of a zero or negative duration fires at once).
  \<^verbatim>\<open>run\<close> never returns; \<open>run_loop n\<close> is the state after \<open>n\<close> steps.
\<close>

definition step :: "sys \<Rightarrow> sys" where
  "step s =
     (case pc s of
        ACQUIRING \<Rightarrow>
          (case provider (tm s) (attempt s) of
             (token, Some err) \<Rightarrow>
               s\<lparr>attempt := Suc (attempt s), pc := RETRY_BACKOFF (5 * Second)\<rparr>
           | (token, None) \<Rightarrow> s\<lparr>attempt := Suc (attempt s), pc := STORE token\<rparr>)
      | RETRY_BACKOFF d \<Rightarrow> s\<lparr>pc := ACQUIRING\<rparr>
      | STORE token \<Rightarrow> (store_token token s)\<lparr>pc := SIGNAL token\<rparr>
      | SIGNAL token \<Rightarrow>
          (case signalReady s of
             Inl err \<Rightarrow> s\<lparr>pc := PANICKED\<rparr>
           | Inr s' \<Rightarrow> s'\<lparr>pc := CALLBACK token\<rparr>)
      | CALLBACK token \<Rightarrow>
          (case notify token s of
             Inl err \<Rightarrow> s\<lparr>pc := PANICKED\<rparr>
           | Inr (token', s') \<Rightarrow> s'\<lparr>pc := SCHEDULE token'\<rparr>)
      | SCHEDULE token \<Rightarrow>
          (case schedule (tm s) token of
             Inl err \<Rightarrow> s\<lparr>pc := PANICKED\<rparr>
           | Inr d \<Rightarrow> (new_timer d s)\<lparr>pc := SCHEDULED_WAIT d\<rparr>)
      | SCHEDULED_WAIT d \<Rightarrow> s\<lparr>pc := NEW_GATE d\<rparr>
      | NEW_GATE d \<Rightarrow> (new_gate s)\<lparr>pc := ACQUIRING\<rparr>
      | PANICKED \<Rightarrow> s)"

primrec run_loop :: "nat \<Rightarrow> sys \<Rightarrow> sys" where
  "run_loop 0 s = s"
| "run_loop (Suc n) s = run_loop n (step s)"

section \<open>The callers' operations\<close>

definition GetToken :: "TokenManager \<Rightarrow> string" where
  "GetToken t = (case currentToken t of None \<Rightarrow> [] | Some token \<Rightarrow> AccessToken token)"

definition GetFullToken :: "TokenManager \<Rightarrow> TokenResponse option" where
  "GetFullToken t = currentToken t"

definition GetAuthorizationHeader :: "TokenManager \<Rightarrow> string" where
  "GetAuthorizationHeader t =
     (case GetFullToken t of
        None \<Rightarrow> []
      | Some token \<Rightarrow> TokenType token @ '' '' @ AccessToken token)"

text \<open>
  An \<^verbatim>\<open>http.Request\<close> behind a non-nil pointer. Its \<^verbatim>\<open>Header\<close> is a Go map, \<open>None\<close>
  when it is nil (as in \<^verbatim>\<open>&http.Request{}\<close>; \<^verbatim>\<open>http.NewRequest\<close> allocates one).
  \<^verbatim>\<open>Header.Set\<close> replaces the values of the key by the one value and panics on a nil
  map; the key \<^verbatim>\<open>"Authorization"\<close> is in canonical form already.
\<close>

record Request =
  Method :: string
  URL :: string
  Header :: "(string \<rightharpoonup> string list) option"

definition Header_Set ::
  "(string \<rightharpoonup> string list) option \<Rightarrow> string \<Rightarrow> string \<Rightarrow> error + (string \<rightharpoonup> string list)" where
  "Header_Set h key val =
     (case h of
        None \<Rightarrow> Inl ''assignment to entry in nil map''
      | Some m \<Rightarrow> Inr (m(key \<mapsto> [val])))"

definition ApplyToRequest :: "TokenManager \<Rightarrow> Request \<Rightarrow> error + Request" where
  "ApplyToRequest t req =
     (let authHeader = GetAuthorizationHeader t
      in if authHeader \<noteq> []
         then (case Header_Set (Header req) ''Authorization'' authHeader of
                 Inl err \<Rightarrow> Inl err
               | Inr m \<Rightarrow> Inr (req\<lparr>Header := Some m\<rparr>))
         else Inr req)"

text \<open>
  \<^verbatim>\<open>WaitForToken\<close> reads \<^verbatim>\<open>tm.tokenReady\<close> once and blocks in the receive on that
  channel while the loop runs. \<open>wait_recv c k s\<close> is the state in which the caller is
  released, looking at most \<open>k\<close> steps of the loop ahead; \<open>None\<close> says that the call has
  not returned after \<open>k\<close> steps. Once the goroutine has panicked the process is gone and
  no call returns.
\<close>

fun wait_recv :: "chan \<Rightarrow> nat \<Rightarrow> sys \<Rightarrow> sys option" where
  "wait_recv c 0 s =
     (if pc s = PANICKED then None else if recv_ready c s then Some s else None)"
| "wait_recv c (Suc k) s =
     (if pc s = PANICKED then None
      else if recv_ready c s then Some s else wait_recv c k (step s))"

definition WaitForToken :: "nat \<Rightarrow> sys \<Rightarrow> sys option" where
  "WaitForToken k s = wait_recv (tokenReady (tm s)) k s"

text \<open>The result of \<^verbatim>\<open>EnsureValidToken\<close>, when it returns: \<open>None\<close> is the nil error.\<close>

definition EnsureValidToken :: "nat \<Rightarrow> sys \<Rightarrow> error option option" where
  "EnsureValidToken k s =
     (case WaitForToken k s of None \<Rightarrow> None | Some s' \<Rightarrow> Some None)"

section \<open>Predicates on states\<close>

text \<open>The installed readiness gate is in the ready state: its channel is closed.\<close>

definition gate_closed :: "sys \<Rightarrow> bool" where
  "gate_closed s = recv_ready (tokenReady (tm s)) s"

text \<open>\<open>currentToken\<close> has been written since the installed gate was installed.\<close>

definition stored_for_gate :: "sys \<Rightarrow> bool" where
  "stored_for_gate s = (tokenGate s = Some (tokenReady (tm s)))"

text \<open>The number of calls without an error among the first \<open>n\<close> calls of the provider.\<close>

primrec successes :: "TokenProvider \<Rightarrow> nat \<Rightarrow> nat" where
  "successes p 0 = 0"
| "successes p (Suc n) = successes p n + (if snd (p n) = None then 1 else 0)"

text \<open>The content of a token object after the configured callback has run on it.\<close>

definition after_callback :: "callback option \<Rightarrow> TokenResponse option \<Rightarrow> TokenResponse option" where
  "after_callback c token =
     (case c of
        None \<Rightarrow> token
      | Some cb \<Rightarrow>
          (case token of
             None \<Rightarrow> None
           | Some x \<Rightarrow> (case on_token cb x of Inl err \<Rightarrow> Some x | Inr x' \<Rightarrow> Some x')))"

text \<open>The loop is past the call of the callback in the current generation.\<close>

definition callback_ran :: "sys \<Rightarrow> bool" where
  "callback_ran s =
     (case pc s of
        SCHEDULE token \<Rightarrow> True | SCHEDULED_WAIT d \<Rightarrow> True | NEW_GATE d \<Rightarrow> True | _ \<Rightarrow> False)"

text \<open>
  The credential of the latest call of the provider: the token that call returned, as
  the callback has left it if the callback has run.
\<close>

definition generation_credential :: "TokenProvider \<Rightarrow> sys \<Rightarrow> TokenResponse option" where
  "generation_credential p s =
     (if callback_ran s then after_callback (onNewToken (tm s)) (fst (p (attempt s - 1)))
      else fst (p (attempt s - 1)))"

text \<open>
  The stored credential is the one published in the generation of the installed gate:
  it was written since that gate was installed, the latest call of the provider
  returned no error and is the successful call number \<open>g + 1\<close> for the gate number
  \<open>g\<close>, and \<open>currentToken\<close> is the credential of that call.
\<close>

definition own_credential :: "TokenProvider \<Rightarrow> sys \<Rightarrow> bool" where
  "own_credential p s =
     (stored_for_gate s \<and> 0 < attempt s \<and> snd (p (attempt s - 1)) = None \<and>
      successes p (attempt s) = Suc (tokenReady (tm s)) \<and>
      currentToken (tm s) = generation_credential p s)"

text \<open>
  The loop stands between the write of \<^verbatim>\<open>tm.currentToken\<close> and the \<^verbatim>\<open>select\<close> that
  closes the channel, that is, inside the publish-and-signal step.
\<close>

definition mid_publish :: "sys \<Rightarrow> bool" where
  "mid_publish s = (case pc s of SIGNAL token \<Rightarrow> True | _ \<Rightarrow> False)"

text \<open>
  The loop is between the signal of a generation and the replacement of its gate: at
  the callback, computing the schedule, in the scheduled wait, or about to install the
  next gate.
\<close>

definition after_signal :: "sys \<Rightarrow> bool" where
  "after_signal s =
     (case pc s of
        CALLBACK token \<Rightarrow> True | SCHEDULE token \<Rightarrow> True | SCHEDULED_WAIT d \<Rightarrow> True
      | NEW_GATE d \<Rightarrow> True | _ \<Rightarrow> False)"

definition replacing_gate :: "sys \<Rightarrow> bool" where
  "replacing_gate s = (case pc s of NEW_GATE d \<Rightarrow> True | _ \<Rightarrow> False)"

text \<open>The loop is acquiring or pausing after a failed attempt.\<close>

definition retrying :: "sys \<Rightarrow> bool" where
  "retrying s = (case pc s of ACQUIRING \<Rightarrow> True | RETRY_BACKOFF d \<Rightarrow> True | _ \<Rightarrow> False)"

text \<open>Every call of the provider from the \<open>n\<close>-th on fails.\<close>

definition fails_from :: "TokenProvider \<Rightarrow> nat \<Rightarrow> bool" where
  "fails_from p n = (\<forall>m\<ge>n. \<exists>err. snd (p m) = Some err)"

text \<open>
  What an option list configures: the value of the last option of each kind, or the
  default.
\<close>

fun configured_buffer :: "Duration \<Rightarrow> TokenManagerOption list \<Rightarrow> Duration" where
  "configured_buffer d [] = d"
| "configured_buffer d (WithBufferTime x # opts) = configured_buffer x opts"
| "configured_buffer d (opt # opts) = configured_buffer d opts"

fun configured_refresh :: "Duration \<Rightarrow> TokenManagerOption list \<Rightarrow> Duration" where
  "configured_refresh d [] = d"
| "configured_refresh d (WithRefreshTime x # opts) = configured_refresh x opts"
| "configured_refresh d (opt # opts) = configured_refresh d opts"

fun configured_callback :: "callback option \<Rightarrow> TokenManagerOption list \<Rightarrow> callback option" where
  "configured_callback c [] = c"
| "configured_callback c (WithOnNewToken x # opts) = configured_callback x opts"
| "configured_callback c (opt # opts) = configured_callback c opts"

text \<open>What holds at each control point of the loop.\<close>

definition fresh :: "TokenProvider \<Rightarrow> sys \<Rightarrow> bool" where
  "fresh p s =
     (0 < attempt s \<and> snd (p (attempt s - 1)) = None \<and>
      successes p (attempt s) = Suc (tokenReady (tm s)))"

definition pc_inv :: "TokenProvider \<Rightarrow> sys \<Rightarrow> bool" where
  "pc_inv p s =
     (case pc s of
        ACQUIRING \<Rightarrow>
          \<not> gate_closed s \<and> \<not> stored_for_gate s \<and> successes p (attempt s) = tokenReady (tm s)
      | RETRY_BACKOFF d \<Rightarrow>
          \<not> gate_closed s \<and> \<not> stored_for_gate s \<and> successes p (attempt s) = tokenReady (tm s)
      | STORE token \<Rightarrow>
          \<not> gate_closed s \<and> \<not> stored_for_gate s \<and> fresh p s \<and> token = fst (p (attempt s - 1))
      | SIGNAL token \<Rightarrow>
          \<not> gate_closed s \<and> stored_for_gate s \<and> fresh p s \<and> token = fst (p (attempt s - 1)) \<and>
          currentToken (tm s) = token
      | CALLBACK token \<Rightarrow>
          gate_closed s \<and> stored_for_gate s \<and> fresh p s \<and> token = fst (p (attempt s - 1)) \<and>
          currentToken (tm s) = token
      | SCHEDULE token \<Rightarrow>
          gate_closed s \<and> stored_for_gate s \<and> fresh p s \<and>
          token = after_callback (onNewToken (tm s)) (fst (p (attempt s - 1))) \<and> currentToken (tm s) = token
      | SCHEDULED_WAIT d \<Rightarrow>
          gate_closed s \<and> stored_for_gate s \<and> fresh p s \<and>
          currentToken (tm s) = after_callback (onNewToken (tm s)) (fst (p (attempt s - 1)))
      | NEW_GATE d \<Rightarrow>
          gate_closed s \<and> stored_for_gate s \<and> fresh p s \<and>
          currentToken (tm s) = after_callback (onNewToken (tm s)) (fst (p (attempt s - 1)))
      | PANICKED \<Rightarrow>
          gate_closed s \<and> stored_for_gate s \<and> fresh p s \<and>
          currentToken (tm s) = fst (p (attempt s - 1)))"

definition heap_inv :: "TokenProvider \<Rightarrow> sys \<Rightarrow> bool" where
  "heap_inv p s =
     (provider (tm s) = p \<and> nextChan s = Suc (tokenReady (tm s)) \<and>
      (\<forall>c\<in>closedChans s. c \<le> tokenReady (tm s)) \<and>
      (case tokenGate s of None \<Rightarrow> True | Some g \<Rightarrow> g \<le> tokenReady (tm s)))"

definition loop_inv :: "TokenProvider \<Rightarrow> sys \<Rightarrow> bool" where
  "loop_inv p s = (heap_inv p s \<and> pc_inv p s)"

section \<open>Example inputs\<close>

definition bearer :: "string \<Rightarrow> 64 word \<Rightarrow> TokenResponse" where
  "bearer a e = \<lparr>AccessToken = a, ExpiresIn = e, TokenType = ''Bearer'', Scope = []\<rparr>"

definition always :: "TokenResponse \<Rightarrow> TokenProvider" where
  "always token = (\<lambda>n. (Some token, None))"

definition never :: TokenProvider where
  "never = (\<lambda>n. (None, Some ''error sending token request''))"

definition failing_until :: "nat \<Rightarrow> TokenResponse \<Rightarrow> TokenProvider" where
  "failing_until k token =
     (\<lambda>n. if n < k then (None, Some ''unexpected status code'') else (Some token, None))"

definition once_then_failing :: "TokenResponse \<Rightarrow> TokenProvider" where
  "once_then_failing token =
     (\<lambda>n. if n = 0 then (Some token, None) else (None, Some ''unexpected status code''))"

definition first_then :: "TokenResponse \<Rightarrow> TokenResponse \<Rightarrow> TokenProvider" where
  "first_then a b = (\<lambda>n. if n = 0 then (Some a, None) else (Some b, None))"

definition nil_token :: TokenProvider where
  "nil_token = (\<lambda>n. (None, None))"

definition rewriting :: callback where
  "rewriting = \<lparr>on_token = (\<lambda>x. Inr (x\<lparr>AccessToken := ''mutated''\<rparr>)), on_nil = None\<rparr>"

definition logging :: callback where
  "logging = \<lparr>on_token = (\<lambda>x. Inr x), on_nil = None\<rparr>"

definition get_request :: Request where
  "get_request =
     \<lparr>Method = ''GET'', URL = ''https://httpbin.org/get'', Header = Some Map.empty\<rparr>"

definition bare_request :: Request where
  "bare_request = \<lparr>Method = ''GET'', URL = ''https://httpbin.org/get'', Header = None\<rparr>"

section \<open>Facts about the loop\<close>

lemmas stmts = store_token_def signalReady_def close_chan_def recv_ready_def notify_def
  new_timer_def new_gate_def

lemmas run_simps = eval_nat_numeral NewTokenManager_def step_def stmts schedule_def Let_def
  Minute_def Second_def

lemma run_loop_add: "run_loop (a + b) s = run_loop b (run_loop a s)"
  by (induction a arbitrary: s) simp_all

lemma panicked_stays: "pc s = PANICKED \<Longrightarrow> run_loop k s = s"
  by (induction k) (simp_all add: step_def)

subsection \<open>The configuration is never written by the loop\<close>

lemma step_config:
  "provider (tm (step s)) = provider (tm s) \<and> bufferTime (tm (step s)) = bufferTime (tm s) \<and>
   refreshTime (tm (step s)) = refreshTime (tm s) \<and> onNewToken (tm (step s)) = onNewToken (tm s)"
  by (cases "pc s")
     (auto simp: step_def stmts Let_def split: sum.splits option.splits prod.splits)

lemma run_loop_config:
  "provider (tm (run_loop n s)) = provider (tm s) \<and>
   bufferTime (tm (run_loop n s)) = bufferTime (tm s) \<and>
   refreshTime (tm (run_loop n s)) = refreshTime (tm s) \<and>
   onNewToken (tm (run_loop n s)) = onNewToken (tm s)"
  by (induction n arbitrary: s) (simp_all add: step_config)

lemma foldl_apply_option:
  "foldl (\<lambda>t opt. apply_option opt t) t0 options =
     t0\<lparr>bufferTime := configured_buffer (bufferTime t0) options,
        refreshTime := configured_refresh (refreshTime t0) options,
        onNewToken := configured_callback (onNewToken t0) options\<rparr>"
proof (induction options arbitrary: t0)
  case Nil
  show ?case by simp
next
  case (Cons opt options)
  show ?case by (cases opt) (simp_all add: Cons.IH)
qed

lemma NewTokenManager_tm:
  "tm (NewTokenManager p options) =
     \<lparr>provider = p, currentToken = None, refreshTimer = None, tokenReady = 0,
      bufferTime = configured_buffer (60 * Second) options,
      refreshTime = configured_refresh (59 * Minute) options,
      onNewToken = configured_callback None options\<rparr>"
  by (simp add: NewTokenManager_def foldl_apply_option)

subsection \<open>The computed schedule\<close>

text \<open>
  The schedule is never negative, and it is zero exactly when no fixed interval is set
  and the expiry (as a duration, with wrap-around) equals the buffer.
\<close>

lemma schedule_nonnegative: "schedule t token = Inr d \<Longrightarrow> 0 \<le> sint d"
  by (auto simp: schedule_def Let_def Second_def split: if_splits option.splits)

lemma schedule_zero_iff:
  "schedule t (Some x) = Inr 0 \<longleftrightarrow>
     \<not> 0 < sint (refreshTime t) \<and> ExpiresIn x * Second = bufferTime t"
  by (auto simp: schedule_def Let_def Second_def)

subsection \<open>The invariant of the loop\<close>

lemma after_callback_None: "after_callback c token = None \<longleftrightarrow> token = None"
  by (auto simp: after_callback_def split: option.splits sum.splits)

lemma loop_inv_init: "loop_inv p (NewTokenManager p options)"
  by (simp add: loop_inv_def heap_inv_def pc_inv_def gate_closed_def stored_for_gate_def
      recv_ready_def NewTokenManager_def foldl_apply_option)

lemmas inv_defs = loop_inv_def heap_inv_def pc_inv_def gate_closed_def stored_for_gate_def
  fresh_def recv_ready_def

lemma loop_inv_step: "loop_inv p s \<Longrightarrow> loop_inv p (step s)"
proof (cases "pc s")
  case ACQUIRING
  assume "loop_inv p s"
  with ACQUIRING show ?thesis
    by (auto simp: inv_defs step_def split: prod.splits option.splits)
next
  case (RETRY_BACKOFF d)
  assume "loop_inv p s"
  with RETRY_BACKOFF show ?thesis
    by (auto simp: inv_defs step_def split: option.splits)
next
  case (STORE token)
  assume "loop_inv p s"
  with STORE show ?thesis
    by (auto simp: inv_defs step_def stmts split: option.splits)
next
  case (SIGNAL token)
  assume "loop_inv p s"
  with SIGNAL show ?thesis
    by (auto simp: inv_defs step_def stmts split: option.splits)
next
  case (CALLBACK token)
  assume "loop_inv p s"
  with CALLBACK show ?thesis
    by (auto simp: inv_defs step_def stmts after_callback_def
        split: sum.splits option.splits prod.splits)
next
  case (SCHEDULE token)
  assume "loop_inv p s"
  with SCHEDULE show ?thesis
    by (auto simp: inv_defs step_def stmts schedule_def Let_def after_callback_None
        split: sum.splits option.splits if_splits)
next
  case (SCHEDULED_WAIT d)
  assume "loop_inv p s"
  with SCHEDULED_WAIT show ?thesis
    by (auto simp: inv_defs step_def split: option.splits)
next
  case (NEW_GATE d)
  assume "loop_inv p s"
  with NEW_GATE show ?thesis
    by (auto simp: inv_defs step_def stmts split: option.splits)
next
  case PANICKED
  assume "loop_inv p s"
  with PANICKED show ?thesis by (simp add: step_def)
qed

lemma loop_inv_run: "loop_inv p s \<Longrightarrow> loop_inv p (run_loop n s)"
  by (induction n arbitrary: s) (simp_all add: loop_inv_step)

lemma loop_inv_reachable: "loop_inv p (run_loop n (NewTokenManager p options))"
  by (simp add: loop_inv_run loop_inv_init)

text \<open>
  A second \<^verbatim>\<open>close\<close> of the same channel would panic; the \<^verbatim>\<open>select\<close> guards the
  \<^verbatim>\<open>close\<close>, so the signal step never panics.
\<close>

lemma close_chan_twice:
  "close_chan c s = Inr s' \<Longrightarrow> close_chan c s' = Inl ''close of closed channel''"
  by (auto simp: close_chan_def split: if_splits)

lemma signal_step: "pc s = SIGNAL token \<Longrightarrow> pc (step s) = CALLBACK token"
  by (simp add: step_def signalReady_def close_chan_def recv_ready_def)

text \<open>The loop panics only after the signal of a generation.\<close>

lemma panicked_after_signal:
  "pc (run_loop n (NewTokenManager p options)) = PANICKED \<Longrightarrow>
     gate_closed (run_loop n (NewTokenManager p options))"
  using loop_inv_reachable [of p n options] by (simp add: loop_inv_def pc_inv_def)

lemma closed_gate_owned: "loop_inv p s \<Longrightarrow> gate_closed s \<Longrightarrow> own_credential p s"
  by (cases "pc s")
     (auto simp: loop_inv_def pc_inv_def own_credential_def fresh_def
        generation_credential_def callback_ran_def)

lemma open_gate_not_owned:
  "loop_inv p s \<Longrightarrow> \<not> gate_closed s \<Longrightarrow> \<not> mid_publish s \<Longrightarrow> \<not> own_credential p s"
  by (cases "pc s") (auto simp: loop_inv_def pc_inv_def own_credential_def mid_publish_def)



text \<open>
  Between the store and the signal the gate is still open although the credential of
  its generation is stored already.
\<close>

lemma mid_publish_window:
  "mid_publish (run_loop n (NewTokenManager p options)) \<Longrightarrow>
     \<not> gate_closed (run_loop n (NewTokenManager p options)) \<and>
     stored_for_gate (run_loop n (NewTokenManager p options)) \<and>
     currentToken (tm (run_loop n (NewTokenManager p options)))
       = fst (p (attempt (run_loop n (NewTokenManager p options)) - 1))"
  using loop_inv_reachable [of p n options]
  by (cases "pc (run_loop n (NewTokenManager p options))")
     (auto simp: loop_inv_def pc_inv_def mid_publish_def)

subsection \<open>Callers blocked on a gate\<close>


lemma wait_recv_returns:
  "recv_ready c (run_loop k s) \<Longrightarrow> pc (run_loop k s) \<noteq> PANICKED \<Longrightarrow> wait_recv c k s \<noteq> None"
proof (induction k arbitrary: s)
  case 0
  then show ?case by simp
next
  case (Suc k)
  have "pc s \<noteq> PANICKED"
  proof
    assume "pc s = PANICKED"
    then have "run_loop (Suc k) s = s" by (rule panicked_stays)
    with Suc.prems(2) \<open>pc s = PANICKED\<close> show False by simp
  qed
  with Suc show ?case by simp
qed

text \<open>Looking further ahead does not change the state in which a caller is released.\<close>

lemma wait_recv_more:
  "wait_recv c k s = Some s' \<Longrightarrow> wait_recv c (k + j) s = Some s'"
proof (induction k arbitrary: s)
  case 0
  then show ?case by (cases j) (simp_all split: if_splits)
next
  case (Suc k)
  then show ?case by (cases "pc s = PANICKED \<or> recv_ready c s") (auto split: if_splits)
qed

lemma step_acquire_failed:
  assumes "pc s = ACQUIRING" and "snd (provider (tm s) (attempt s)) = Some err"
  shows "step s = s\<lparr>attempt := Suc (attempt s), pc := RETRY_BACKOFF (5 * Second)\<rparr>"
  using assms by (cases "provider (tm s) (attempt s)") (simp add: step_def)

lemma step_acquire_ok:
  assumes "pc s = ACQUIRING" and "snd (provider (tm s) (attempt s)) = None"
  shows "step s = s\<lparr>attempt := Suc (attempt s), pc := STORE (fst (provider (tm s) (attempt s)))\<rparr>"
  using assms by (cases "provider (tm s) (attempt s)") (simp add: step_def)

lemma acquiring_success_closes:
  assumes "pc s = ACQUIRING" and "snd (provider (tm s) (attempt s)) = None"
  shows "recv_ready (tokenReady (tm s)) (run_loop 3 s) \<and> pc (run_loop 3 s) \<noteq> PANICKED"
proof -
  let ?s1 = "s\<lparr>attempt := Suc (attempt s), pc := STORE (fst (provider (tm s) (attempt s)))\<rparr>"
  have "run_loop 3 s = run_loop 2 ?s1"
    using step_acquire_ok [OF assms] by (simp add: eval_nat_numeral)
  then show ?thesis by (simp add: eval_nat_numeral step_def stmts)
qed

lemma acquiring_failure_retries:
  assumes "pc s = ACQUIRING" and "snd (provider (tm s) (attempt s)) = Some err"
  shows "run_loop 2 s = s\<lparr>attempt := Suc (attempt s)\<rparr>"
  using step_acquire_failed [OF assms] assms(1) by (simp add: eval_nat_numeral step_def)

lemma acquiring_eventually_closes:
  "pc s = ACQUIRING \<Longrightarrow> attempt s \<le> m \<Longrightarrow> snd (provider (tm s) m) = None \<Longrightarrow>
     \<exists>k. recv_ready (tokenReady (tm s)) (run_loop k s) \<and> pc (run_loop k s) \<noteq> PANICKED"
proof (induction "m - attempt s" arbitrary: s)
  case 0
  then have "snd (provider (tm s) (attempt s)) = None" by simp
  from acquiring_success_closes [OF "0.prems"(1) this] show ?case by blast
next
  case (Suc d)
  show ?case
  proof (cases "snd (provider (tm s) (attempt s))")
    case None
    from acquiring_success_closes [OF Suc.prems(1) this] show ?thesis by blast
  next
    case (Some err)
    let ?s' = "s\<lparr>attempt := Suc (attempt s)\<rparr>"
    have r: "run_loop 2 s = ?s'" by (rule acquiring_failure_retries [OF Suc.prems(1) Some])
    have "d = m - attempt ?s'" using Suc.hyps(2) by simp
    moreover have "pc ?s' = ACQUIRING" using Suc.prems(1) by simp
    moreover have "attempt ?s' \<le> m" using Suc.hyps(2) by simp
    moreover have "snd (provider (tm ?s') m) = None" using Suc.prems(3) by simp
    ultimately obtain k
      where "recv_ready (tokenReady (tm ?s')) (run_loop k ?s') \<and> pc (run_loop k ?s') \<noteq> PANICKED"
      using Suc.hyps(1) by blast
    then have "recv_ready (tokenReady (tm s)) (run_loop (2 + k) s) \<and>
               pc (run_loop (2 + k) s) \<noteq> PANICKED"
      by (simp only: run_loop_add r) simp
    then show ?thesis by blast
  qed
qed

lemma eventually_closes:
  assumes inv: "loop_inv p s" and live: "pc s \<noteq> PANICKED"
    and le: "attempt s \<le> m" and ok: "snd (p m) = None"
  shows "\<exists>k. recv_ready (tokenReady (tm s)) (run_loop k s) \<and> pc (run_loop k s) \<noteq> PANICKED"
proof (cases "gate_closed s")
  case True
  with live have "recv_ready (tokenReady (tm s)) (run_loop 0 s) \<and> pc (run_loop 0 s) \<noteq> PANICKED"
    by (simp add: gate_closed_def)
  then show ?thesis by blast
next
  case False
  from inv have prov: "provider (tm s) = p" by (simp add: loop_inv_def heap_inv_def)
  from inv have pci: "pc_inv p s" by (simp add: loop_inv_def)
  show ?thesis
  proof (cases "pc s")
    case ACQUIRING
    from acquiring_eventually_closes [OF ACQUIRING le] ok prov show ?thesis by simp
  next
    case (RETRY_BACKOFF d)
    let ?s' = "step s"
    have s': "?s' = s\<lparr>pc := ACQUIRING\<rparr>" using RETRY_BACKOFF by (simp add: step_def)
    have "pc ?s' = ACQUIRING" "attempt ?s' \<le> m" "snd (provider (tm ?s') m) = None"
      using s' le ok prov by simp_all
    from acquiring_eventually_closes [OF this]
    obtain k where "recv_ready (tokenReady (tm ?s')) (run_loop k ?s') \<and>
                    pc (run_loop k ?s') \<noteq> PANICKED" by blast
    then have "recv_ready (tokenReady (tm s)) (run_loop (Suc k) s) \<and>
               pc (run_loop (Suc k) s) \<noteq> PANICKED" using s' by simp
    then show ?thesis by blast
  next
    case (STORE token')
    then have "recv_ready (tokenReady (tm s)) (run_loop 2 s) \<and> pc (run_loop 2 s) \<noteq> PANICKED"
      by (simp add: eval_nat_numeral step_def stmts)
    then show ?thesis by blast
  next
    case (SIGNAL token')
    then have "recv_ready (tokenReady (tm s)) (run_loop 1 s) \<and> pc (run_loop 1 s) \<noteq> PANICKED"
      by (simp add: step_def stmts)
    then show ?thesis by blast
  next
    case (CALLBACK token')
    with pci False show ?thesis by (simp add: pc_inv_def)
  next
    case (SCHEDULE token')
    with pci False show ?thesis by (simp add: pc_inv_def)
  next
    case (SCHEDULED_WAIT d)
    with pci False show ?thesis by (simp add: pc_inv_def)
  next
    case (NEW_GATE d)
    with pci False show ?thesis by (simp add: pc_inv_def)
  next
    case PANICKED
    with live show ?thesis by simp
  qed
qed

lemma retrying_step:
  assumes r: "retrying s" and f: "fails_from (provider (tm s)) (attempt s)"
    and c: "c \<notin> closedChans s"
  shows "retrying (step s) \<and> fails_from (provider (tm (step s))) (attempt (step s)) \<and>
         c \<notin> closedChans (step s)"
proof -
  from r consider "pc s = ACQUIRING" | d where "pc s = RETRY_BACKOFF d"
    by (cases "pc s") (simp_all add: retrying_def)
  then show ?thesis
  proof cases
    case 1
    from f obtain err where "snd (provider (tm s) (attempt s)) = Some err"
      by (auto simp: fails_from_def)
    from step_acquire_failed [OF 1 this] f c show ?thesis
      by (auto simp: retrying_def fails_from_def)
  next
    case 2
    with f c show ?thesis by (auto simp: step_def retrying_def)
  qed
qed

lemma retrying_blocks:
  "retrying s \<Longrightarrow> fails_from (provider (tm s)) (attempt s) \<Longrightarrow> c \<notin> closedChans s \<Longrightarrow>
     wait_recv c k s = None"
proof (induction k arbitrary: s)
  case 0
  then show ?case by (simp add: recv_ready_def)
next
  case (Suc k)
  from retrying_step [OF Suc.prems] Suc.IH [of "step s"] Suc.prems(3)
  show ?case by (simp add: recv_ready_def)
qed

lemma after_signal_returns:
  assumes "loop_inv p s" and "after_signal s"
  shows "WaitForToken k s = Some s"
proof -
  from assms have "gate_closed s \<and> pc s \<noteq> PANICKED"
    by (cases "pc s") (auto simp: loop_inv_def pc_inv_def after_signal_def)
  then show ?thesis by (cases k) (simp_all add: WaitForToken_def gate_closed_def)
qed

lemma replacing_gate_step:
  assumes "loop_inv p s" and "replacing_gate s"
  shows "\<not> gate_closed (step s) \<and> retrying (step s) \<and>
         currentToken (tm (step s)) = currentToken (tm s)"
  using assms
  by (cases "pc s")
     (auto simp: loop_inv_def heap_inv_def replacing_gate_def step_def new_gate_def
        gate_closed_def recv_ready_def retrying_def)

lemma gate_kept_step: "\<not> replacing_gate s \<Longrightarrow> tokenReady (tm (step s)) = tokenReady (tm s)"
  by (cases "pc s")
     (auto simp: replacing_gate_def step_def stmts
        split: sum.splits prod.splits option.splits if_splits)

section \<open>Waiting for a credential\<close>

text \<open>
  Claim C1, as the code has it. \<^verbatim>\<open>WaitForToken\<close> and \<^verbatim>\<open>EnsureValidToken\<close> follow
  the gate that is installed when they are called, not the first publication. In every
  state of the loop:
  \<^item> from the signal of a generation until the replacement of its gate (at the callback,
    at the computation of the schedule, during the scheduled wait and when the wait has
    ended) a call returns at once, \<^verbatim>\<open>EnsureValidToken\<close> with the nil error;
  \<^item> no step but the one after the scheduled wait installs another gate, and that step
    installs an open gate, keeps the stored credential and goes back to acquiring;
  \<^item> a call returns after finitely many steps of the loop whenever the process is alive
    and some later call of the provider returns no error;
  \<^item> a call made while the loop is acquiring or pausing after a failure never returns
    when every later call of the provider fails, whether or not an earlier credential
    is still stored.
\<close>

theorem WaitForToken_follows_installed_gate:
  "(after_signal (run_loop n (NewTokenManager p options)) \<longrightarrow>
      WaitForToken k (run_loop n (NewTokenManager p options))
        = Some (run_loop n (NewTokenManager p options)) \<and>
      EnsureValidToken k (run_loop n (NewTokenManager p options)) = Some None) \<and>
   (\<not> replacing_gate (run_loop n (NewTokenManager p options)) \<longrightarrow>
      tokenReady (tm (step (run_loop n (NewTokenManager p options))))
        = tokenReady (tm (run_loop n (NewTokenManager p options)))) \<and>
   (replacing_gate (run_loop n (NewTokenManager p options)) \<longrightarrow>
      \<not> gate_closed (step (run_loop n (NewTokenManager p options))) \<and>
      retrying (step (run_loop n (NewTokenManager p options))) \<and>
      currentToken (tm (step (run_loop n (NewTokenManager p options))))
        = currentToken (tm (run_loop n (NewTokenManager p options)))) \<and>
   (pc (run_loop n (NewTokenManager p options)) \<noteq> PANICKED \<and>
    (\<exists>m\<ge>attempt (run_loop n (NewTokenManager p options)). snd (p m) = None) \<longrightarrow>
      (\<exists>j. WaitForToken j (run_loop n (NewTokenManager p options)) \<noteq> None \<and>
           EnsureValidToken j (run_loop n (NewTokenManager p options)) = Some None)) \<and>
   (retrying (run_loop n (NewTokenManager p options)) \<and>
    fails_from p (attempt (run_loop n (NewTokenManager p options))) \<longrightarrow>
      (\<forall>j. WaitForToken j (run_loop n (NewTokenManager p options)) = None \<and>
           EnsureValidToken j (run_loop n (NewTokenManager p options)) = None))"
proof -
  let ?s = "run_loop n (NewTokenManager p options)"
  have inv: "loop_inv p ?s" by (rule loop_inv_reachable)
  then have prov: "provider (tm ?s) = p" by (simp add: loop_inv_def heap_inv_def)
  have a: "after_signal ?s \<longrightarrow> WaitForToken k ?s = Some ?s \<and> EnsureValidToken k ?s = Some None"
    using after_signal_returns [OF inv] by (simp add: EnsureValidToken_def)
  have b: "\<not> replacing_gate ?s \<longrightarrow> tokenReady (tm (step ?s)) = tokenReady (tm ?s)"
    by (simp add: gate_kept_step)
  have c: "replacing_gate ?s \<longrightarrow> \<not> gate_closed (step ?s) \<and> retrying (step ?s) \<and>
             currentToken (tm (step ?s)) = currentToken (tm ?s)"
    using replacing_gate_step [OF inv] by blast
  have d: "pc ?s \<noteq> PANICKED \<and> (\<exists>m\<ge>attempt ?s. snd (p m) = None) \<longrightarrow>
             (\<exists>j. WaitForToken j ?s \<noteq> None \<and> EnsureValidToken j ?s = Some None)"
  proof
    assume h: "pc ?s \<noteq> PANICKED \<and> (\<exists>m\<ge>attempt ?s. snd (p m) = None)"
    then obtain m where "attempt ?s \<le> m" "snd (p m) = None" by blast
    from eventually_closes [OF inv _ this] h obtain j
      where "recv_ready (tokenReady (tm ?s)) (run_loop j ?s)" "pc (run_loop j ?s) \<noteq> PANICKED"
      by blast
    then have "WaitForToken j ?s \<noteq> None"
      unfolding WaitForToken_def by (rule wait_recv_returns)
    then have "WaitForToken j ?s \<noteq> None \<and> EnsureValidToken j ?s = Some None"
      by (auto simp: EnsureValidToken_def)
    then show "\<exists>j. WaitForToken j ?s \<noteq> None \<and> EnsureValidToken j ?s = Some None" by blast
  qed
  have e: "retrying ?s \<and> fails_from p (attempt ?s) \<longrightarrow>
             (\<forall>j. WaitForToken j ?s = None \<and> EnsureValidToken j ?s = None)"
  proof (intro impI allI)
    fix j
    assume h: "retrying ?s \<and> fails_from p (attempt ?s)"
    have "pc_inv p ?s" using inv by (simp add: loop_inv_def)
    with h have "tokenReady (tm ?s) \<notin> closedChans ?s"
      by (cases "pc ?s") (simp_all add: retrying_def pc_inv_def gate_closed_def recv_ready_def)
    with h prov have "WaitForToken j ?s = None"
      unfolding WaitForToken_def by (intro retrying_blocks) simp_all
    then show "WaitForToken j ?s = None \<and> EnsureValidToken j ?s = None"
      by (simp add: EnsureValidToken_def)
  qed
  from a b c d e show ?thesis by blast
qed

text \<open>
  The cases at concrete runs of the default configuration: during the scheduled wait of
  the first generation the calls return at once; the step after the wait installs an
  open gate and keeps the credential; a call made then returns when the provider
  succeeds again; with a provider that always fails no call returns.
\<close>

theorem WaitForToken_follows_installed_gate_witness:
  "WaitForToken 0 (run_loop 5 (NewTokenManager (always (bearer ''abc'' 3600)) []))
     = Some (run_loop 5 (NewTokenManager (always (bearer ''abc'' 3600)) [])) \<and>
   EnsureValidToken 0 (run_loop 5 (NewTokenManager (always (bearer ''abc'' 3600)) [])) = Some None \<and>
   tokenReady (tm (step (run_loop 5 (NewTokenManager (always (bearer ''abc'' 3600)) []))))
     = tokenReady (tm (run_loop 5 (NewTokenManager (always (bearer ''abc'' 3600)) []))) \<and>
   \<not> gate_closed (step (run_loop 6 (NewTokenManager (always (bearer ''abc'' 3600)) []))) \<and>
   currentToken (tm (step (run_loop 6 (NewTokenManager (always (bearer ''abc'' 3600)) []))))
     = Some (bearer ''abc'' 3600) \<and>
   (\<exists>j. WaitForToken j (run_loop 7 (NewTokenManager (always (bearer ''abc'' 3600)) [])) \<noteq> None) \<and>
   (\<forall>j. WaitForToken j (run_loop 0 (NewTokenManager never [])) = None \<and>
        EnsureValidToken j (run_loop 0 (NewTokenManager never [])) = None)"
proof -
  let ?p = "always (bearer ''abc'' 3600)"
  have a: "after_signal (run_loop 5 (NewTokenManager ?p []))"
    and b: "\<not> replacing_gate (run_loop 5 (NewTokenManager ?p []))"
    and c: "replacing_gate (run_loop 6 (NewTokenManager ?p []))"
    and c': "currentToken (tm (run_loop 6 (NewTokenManager ?p []))) = Some (bearer ''abc'' 3600)"
    and d: "pc (run_loop 7 (NewTokenManager ?p [])) \<noteq> PANICKED"
    by (simp_all add: after_signal_def replacing_gate_def always_def run_simps)
  have d': "\<exists>m\<ge>attempt (run_loop 7 (NewTokenManager ?p [])). snd (?p m) = None"
    by (auto simp: always_def)
  have e: "retrying (run_loop 0 (NewTokenManager never [])) \<and>
           fails_from never (attempt (run_loop 0 (NewTokenManager never [])))"
    by (simp add: retrying_def fails_from_def never_def NewTokenManager_def)
  from a b WaitForToken_follows_installed_gate [of 5 ?p "[]" 0]
  have "WaitForToken 0 (run_loop 5 (NewTokenManager ?p [])) = Some (run_loop 5 (NewTokenManager ?p [])) \<and>
        EnsureValidToken 0 (run_loop 5 (NewTokenManager ?p [])) = Some None \<and>
        tokenReady (tm (step (run_loop 5 (NewTokenManager ?p []))))
          = tokenReady (tm (run_loop 5 (NewTokenManager ?p [])))"
    by blast
  moreover from c c' WaitForToken_follows_installed_gate [of 6 ?p "[]" 0]
  have "\<not> gate_closed (step (run_loop 6 (NewTokenManager ?p []))) \<and>
        currentToken (tm (step (run_loop 6 (NewTokenManager ?p [])))) = Some (bearer ''abc'' 3600)"
    by simp
  moreover from d d' WaitForToken_follows_installed_gate [of 7 ?p "[]" 0]
  have "\<exists>j. WaitForToken j (run_loop 7 (NewTokenManager ?p [])) \<noteq> None"
    by blast
  moreover from e WaitForToken_follows_installed_gate [of 0 never "[]" 0]
  have "\<forall>j. WaitForToken j (run_loop 0 (NewTokenManager never [])) = None \<and>
            EnsureValidToken j (run_loop 0 (NewTokenManager never [])) = None"
    by blast
  ultimately show ?thesis by blast
qed

text \<open>
  Against C1 as stated: the provider succeeds once and fails from then on. After the
  scheduled wait the gate has been replaced; the first credential is still stored, and
  a call of \<^verbatim>\<open>WaitForToken\<close> or \<^verbatim>\<open>EnsureValidToken\<close> made then never returns.
\<close>

theorem WaitForToken_blocks_after_first_publish:
  "currentToken (tm (run_loop 7 (NewTokenManager (once_then_failing (bearer ''abc'' 3600)) [])))
     = Some (bearer ''abc'' 3600) \<and>
   (\<forall>k. WaitForToken k (run_loop 7 (NewTokenManager (once_then_failing (bearer ''abc'' 3600)) []))
          = None \<and>
        EnsureValidToken k (run_loop 7 (NewTokenManager (once_then_failing (bearer ''abc'' 3600)) []))
          = None)"
proof -
  let ?p = "once_then_failing (bearer ''abc'' 3600)"
  let ?s = "run_loop 7 (NewTokenManager ?p [])"
  have tok: "currentToken (tm ?s) = Some (bearer ''abc'' 3600)"
    and at: "attempt ?s = 1" and pcs: "pc ?s = ACQUIRING" and prov: "provider (tm ?s) = ?p"
    and gate: "tokenReady (tm ?s) \<notin> closedChans ?s"
    by (simp_all add: once_then_failing_def run_simps)
  have f: "fails_from (provider (tm ?s)) (attempt ?s)"
    unfolding prov at by (simp add: fails_from_def once_then_failing_def)
  have r: "retrying ?s" using pcs by (simp add: retrying_def)
  have "\<forall>k. WaitForToken k ?s = None"
    unfolding WaitForToken_def using retrying_blocks [OF r f gate] by blast
  with tok show ?thesis by (simp add: EnsureValidToken_def)
qed




section \<open>The invariant of the manager state\<close>

text \<open>
  Claim C3, as the code has it. In every state of the loop that does not lie inside the
  publish-and-signal step, the installed gate is closed if and only if the stored
  credential is the one published in the generation of that gate: \<open>currentToken\<close> was
  written since the gate was installed, the latest call of the provider returned no
  error and is the successful call number \<open>g + 1\<close> for the gate number \<open>g\<close>, and
  \<open>currentToken\<close> holds the token that call returned, as the callback has left it if
  it has run. The credential is then absent exactly when the provider returned a nil
  token. While the loop is acquiring or pausing, the provider has succeeded \<open>g\<close> times.
\<close>

theorem gate_ready_iff_own_credential:
  assumes "\<not> mid_publish (run_loop n (NewTokenManager p options))"
  shows "gate_closed (run_loop n (NewTokenManager p options))
           = own_credential p (run_loop n (NewTokenManager p options)) \<and>
         (gate_closed (run_loop n (NewTokenManager p options)) \<longrightarrow>
            (currentToken (tm (run_loop n (NewTokenManager p options))) = None) =
            (fst (p (attempt (run_loop n (NewTokenManager p options)) - 1)) = None)) \<and>
         (retrying (run_loop n (NewTokenManager p options)) \<longrightarrow>
            \<not> gate_closed (run_loop n (NewTokenManager p options)) \<and>
            successes p (attempt (run_loop n (NewTokenManager p options)))
              = tokenReady (tm (run_loop n (NewTokenManager p options))))"
proof -
  let ?s = "run_loop n (NewTokenManager p options)"
  have inv: "loop_inv p ?s" by (rule loop_inv_reachable)
  have iff: "gate_closed ?s = own_credential p ?s"
    using closed_gate_owned [OF inv] open_gate_not_owned [OF inv] assms by blast
  have absent: "gate_closed ?s \<longrightarrow>
      (currentToken (tm ?s) = None) = (fst (p (attempt ?s - 1)) = None)"
  proof
    assume "gate_closed ?s"
    from closed_gate_owned [OF inv this]
    have "currentToken (tm ?s) = generation_credential p ?s" by (simp add: own_credential_def)
    then show "(currentToken (tm ?s) = None) = (fst (p (attempt ?s - 1)) = None)"
      by (simp add: generation_credential_def after_callback_None)
  qed
  have acq: "retrying ?s \<longrightarrow> \<not> gate_closed ?s \<and> successes p (attempt ?s) = tokenReady (tm ?s)"
    using inv by (cases "pc ?s") (auto simp: loop_inv_def pc_inv_def retrying_def)
  from iff absent acq show ?thesis by blast
qed

text \<open>
  With a provider that returns \<open>abc\<close> first and \<open>def\<close> from then on: after the second
  publish and signal the second gate is closed and the stored credential is \<open>def\<close>;
  after the first gate was replaced the second gate is open and the stored \<open>abc\<close> is
  not the credential of its generation.
\<close>

theorem gate_ready_iff_own_credential_witness:
  "gate_closed (run_loop 10 (NewTokenManager (first_then (bearer ''abc'' 3600) (bearer ''def'' 3600)) [])) \<and>
   own_credential (first_then (bearer ''abc'' 3600) (bearer ''def'' 3600))
     (run_loop 10 (NewTokenManager (first_then (bearer ''abc'' 3600) (bearer ''def'' 3600)) [])) \<and>
   currentToken (tm (run_loop 10 (NewTokenManager (first_then (bearer ''abc'' 3600) (bearer ''def'' 3600)) [])))
     = Some (bearer ''def'' 3600) \<and>
   \<not> gate_closed (run_loop 7 (NewTokenManager (first_then (bearer ''abc'' 3600) (bearer ''def'' 3600)) [])) \<and>
   \<not> own_credential (first_then (bearer ''abc'' 3600) (bearer ''def'' 3600))
     (run_loop 7 (NewTokenManager (first_then (bearer ''abc'' 3600) (bearer ''def'' 3600)) [])) \<and>
   currentToken (tm (run_loop 7 (NewTokenManager (first_then (bearer ''abc'' 3600) (bearer ''def'' 3600)) [])))
     = Some (bearer ''abc'' 3600)"
proof -
  let ?p = "first_then (bearer ''abc'' 3600) (bearer ''def'' 3600)"
  let ?i = "NewTokenManager ?p []"
  have m10: "\<not> mid_publish (run_loop 10 ?i)" and m7: "\<not> mid_publish (run_loop 7 ?i)"
    by (simp_all add: mid_publish_def first_then_def run_simps)
  have g10: "gate_closed (run_loop 10 ?i)" and g7: "\<not> gate_closed (run_loop 7 ?i)"
    and t10: "currentToken (tm (run_loop 10 ?i)) = Some (bearer ''def'' 3600)"
    and t7: "currentToken (tm (run_loop 7 ?i)) = Some (bearer ''abc'' 3600)"
    by (simp_all add: gate_closed_def first_then_def run_simps)
  from gate_ready_iff_own_credential [OF m10] gate_ready_iff_own_credential [OF m7]
    g10 g7 t10 t7
  show ?thesis by simp
qed

text \<open>
  Against C3 as stated: a provider that returns a nil token with a nil error. After the
  publish and signal of the first generation the gate is closed and no credential is
  stored.
\<close>

theorem gate_ready_without_credential:
  "\<not> mid_publish (run_loop 3 (NewTokenManager nil_token [])) \<and>
   gate_closed (run_loop 3 (NewTokenManager nil_token [])) \<and>
   currentToken (tm (run_loop 3 (NewTokenManager nil_token []))) = None \<and>
   pc (run_loop 5 (NewTokenManager nil_token [])) = SCHEDULED_WAIT (59 * Minute)"
  by (simp add: mid_publish_def gate_closed_def nil_token_def run_simps)

section \<open>The renewal schedule\<close>

text \<open>
  Claim C4, at the input where the code departs from it. With \<^verbatim>\<open>refreshTime\<close> unset
  (zero), the default buffer of 60 seconds and a token that expires in 60 seconds,
  expiry minus buffer is zero; the test \<^verbatim>\<open>refreshTime < 0\<close> does not replace it, and
  the loop waits on a timer of duration zero.
\<close>

theorem schedule_zero_when_expiry_equals_buffer:
  "schedule (tm (NewTokenManager (always (bearer ''abc'' 60)) [WithRefreshTime 0]))
     (Some (bearer ''abc'' 60)) = Inr 0 \<and>
   pc (run_loop 5 (NewTokenManager (always (bearer ''abc'' 60)) [WithRefreshTime 0]))
     = SCHEDULED_WAIT 0"
  by (simp add: always_def bearer_def run_simps)

text \<open>
  Claim C5. If the configured \<^verbatim>\<open>refreshTime\<close> is strictly positive, then in every
  generation (every state of the loop that is about to compute the schedule, for the
  token of that generation, whatever its \<^verbatim>\<open>ExpiresIn\<close>) the computed schedule is that
  interval, and the loop then waits on a timer of exactly that duration.
\<close>

theorem fixed_refresh_interval:
  assumes "0 < sint (refreshTime (tm (NewTokenManager p options)))"
    and "pc (run_loop n (NewTokenManager p options)) = SCHEDULE token"
  shows "schedule (tm (run_loop n (NewTokenManager p options))) token
           = Inr (refreshTime (tm (NewTokenManager p options))) \<and>
         pc (step (run_loop n (NewTokenManager p options)))
           = SCHEDULED_WAIT (refreshTime (tm (NewTokenManager p options)))"
proof -
  let ?s = "run_loop n (NewTokenManager p options)"
  have cfg: "refreshTime (tm ?s) = refreshTime (tm (NewTokenManager p options))"
    by (simp add: run_loop_config)
  with assms(1)
  have sch: "schedule (tm ?s) token = Inr (refreshTime (tm (NewTokenManager p options)))"
    by (simp add: schedule_def)
  then have "pc (step ?s) = SCHEDULED_WAIT (refreshTime (tm (NewTokenManager p options)))"
    using assms(2) by (simp add: step_def new_timer_def)
  with sch show ?thesis by simp
qed

text \<open>With 59 minutes configured and tokens that expire in 60 seconds: 59 minutes.\<close>

theorem fixed_refresh_interval_witness:
  "schedule (tm (run_loop 4 (NewTokenManager (always (bearer ''abc'' 60)) [WithRefreshTime (59 * Minute)])))
      (Some (bearer ''abc'' 60)) = Inr (59 * Minute) \<and>
   pc (step (run_loop 4 (NewTokenManager (always (bearer ''abc'' 60)) [WithRefreshTime (59 * Minute)])))
     = SCHEDULED_WAIT (59 * Minute)"
proof -
  let ?i = "NewTokenManager (always (bearer ''abc'' 60)) [WithRefreshTime (59 * Minute)]"
  have a: "0 < sint (refreshTime (tm ?i))"
    by (simp add: NewTokenManager_def Minute_def Second_def)
  have b: "pc (run_loop 4 ?i) = SCHEDULE (Some (bearer ''abc'' 60))"
    by (simp add: always_def eval_nat_numeral NewTokenManager_def step_def stmts)
  have c: "refreshTime (tm ?i) = 59 * Minute"
    by (simp add: NewTokenManager_def)
  show ?thesis using fixed_refresh_interval [OF a b] unfolding c .
qed

section \<open>Failed acquisitions\<close>

text \<open>
  Claim C6. When the call of the provider fails, the step of the loop leaves the manager
  struct (the credential, the gate, the timer and the configuration), the channels and
  the callback record unchanged, so that \<^verbatim>\<open>GetToken\<close> returns what it returned before;
  the loop pauses for 5 seconds and is then back at the acquisition, with nothing but
  the count of attempts changed.
\<close>

theorem failed_acquisition_frame:
  assumes "pc s = ACQUIRING" and "snd (provider (tm s) (attempt s)) = Some err"
  shows "tm (step s) = tm s \<and> closedChans (step s) = closedChans s \<and>
         nextChan (step s) = nextChan s \<and> notified (step s) = notified s \<and>
         GetToken (tm (step s)) = GetToken (tm s) \<and>
         pc (step s) = RETRY_BACKOFF (5 * Second) \<and>
         step (step s) = s\<lparr>attempt := Suc (attempt s)\<rparr>"
  using step_acquire_failed [OF assms] assms(1) by (simp add: step_def)

text \<open>
  The renewal after the first generation fails: the token of the first generation stays.
\<close>

theorem failed_acquisition_frame_witness:
  "GetToken (tm (step (run_loop 7 (NewTokenManager (once_then_failing (bearer ''abc'' 3600)) []))))
     = ''abc'' \<and>
   pc (step (run_loop 7 (NewTokenManager (once_then_failing (bearer ''abc'' 3600)) [])))
     = RETRY_BACKOFF (5 * Second) \<and>
   pc (step (step (run_loop 7 (NewTokenManager (once_then_failing (bearer ''abc'' 3600)) []))))
     = ACQUIRING"
proof -
  let ?s = "run_loop 7 (NewTokenManager (once_then_failing (bearer ''abc'' 3600)) [])"
  have a: "pc ?s = ACQUIRING"
    and b: "snd (provider (tm ?s) (attempt ?s)) = Some ''unexpected status code''"
    and c: "GetToken (tm ?s) = ''abc''"
    by (simp_all add: GetToken_def once_then_failing_def bearer_def run_simps)
  from failed_acquisition_frame [OF a b] a c show ?thesis by simp
qed

section \<open>The ready signal\<close>

text \<open>
  Claim C7. The ready signal never faults, and signalling twice leaves exactly the state
  that signalling once leaves: the second signal finds the channel closed and does
  nothing.
\<close>

theorem signalReady_idempotent:
  "\<exists>s'. signalReady s = Inr s' \<and> signalReady s' = Inr s'"
  by (simp add: signalReady_def close_chan_def recv_ready_def)

section \<open>The authorization header\<close>

text \<open>
  Claim C8, as the code has it. Whenever a credential is stored,
  \<^verbatim>\<open>GetAuthorizationHeader\<close> returns its token type, a space and its access token. For
  every request whose header map is allocated, \<^verbatim>\<open>ApplyToRequest\<close> then sets the
  \<open>Authorization\<close> header to that single value and changes nothing else: to
  \<open>Bearer abc\<close> for the access token \<open>abc\<close> and the token type \<open>Bearer\<close>. On a
  request whose header map is nil it panics. If no credential is stored,
  \<^verbatim>\<open>ApplyToRequest\<close> leaves every request unchanged and \<^verbatim>\<open>GetAuthorizationHeader\<close>
  returns the empty string.
\<close>

theorem ApplyToRequest_header:
  "(currentToken t = Some token \<longrightarrow>
      GetAuthorizationHeader t = TokenType token @ '' '' @ AccessToken token) \<and>
   (currentToken t = Some token \<and> Header req = Some h \<longrightarrow>
      ApplyToRequest t req
        = Inr (req\<lparr>Header :=
                 Some (h(''Authorization'' \<mapsto> [TokenType token @ '' '' @ AccessToken token]))\<rparr>)) \<and>
   (currentToken t = Some token \<and> AccessToken token = ''abc'' \<and> TokenType token = ''Bearer'' \<and>
    Header req = Some h \<longrightarrow>
      ApplyToRequest t req = Inr (req\<lparr>Header := Some (h(''Authorization'' \<mapsto> [''Bearer abc'']))\<rparr>)) \<and>
   (currentToken t = Some token \<and> Header req = None \<longrightarrow>
      ApplyToRequest t req = Inl ''assignment to entry in nil map'') \<and>
   (currentToken t = None \<longrightarrow> ApplyToRequest t req = Inr req \<and> GetAuthorizationHeader t = [])"
  by (simp add: ApplyToRequest_def GetAuthorizationHeader_def GetFullToken_def Header_Set_def)

text \<open>
  On a request made as \<^verbatim>\<open>http.NewRequest\<close> makes it: \<open>Bearer abc\<close> once the
  credential is published, \<open>Basic xyz\<close> for a credential of that kind, and no change
  before the first publication.
\<close>

theorem ApplyToRequest_header_witness:
  "ApplyToRequest (tm (run_loop 3 (NewTokenManager (always (bearer ''abc'' 3600)) []))) get_request
     = Inr (get_request\<lparr>Header := Some [''Authorization'' \<mapsto> [''Bearer abc'']]\<rparr>) \<and>
   GetAuthorizationHeader
     (tm (run_loop 3 (NewTokenManager
        (always \<lparr>AccessToken = ''xyz'', ExpiresIn = 60, TokenType = ''Basic'', Scope = []\<rparr>) [])))
     = ''Basic xyz'' \<and>
   ApplyToRequest (tm (run_loop 3 (NewTokenManager (always (bearer ''abc'' 3600)) []))) bare_request
     = Inl ''assignment to entry in nil map'' \<and>
   ApplyToRequest (tm (NewTokenManager (always (bearer ''abc'' 3600)) [])) bare_request = Inr bare_request \<and>
   GetAuthorizationHeader (tm (NewTokenManager (always (bearer ''abc'' 3600)) [])) = []"
proof -
  let ?i = "NewTokenManager (always (bearer ''abc'' 3600)) []"
  let ?x = "\<lparr>AccessToken = ''xyz'', ExpiresIn = 60, TokenType = ''Basic'', Scope = []\<rparr>"
  have a: "currentToken (tm (run_loop 3 ?i)) = Some (bearer ''abc'' 3600)"
    and a': "AccessToken (bearer ''abc'' 3600) = ''abc''" "TokenType (bearer ''abc'' 3600) = ''Bearer''"
    and x: "currentToken (tm (run_loop 3 (NewTokenManager (always ?x) []))) = Some ?x"
    by (simp_all add: always_def bearer_def run_simps)
  have b: "currentToken (tm ?i) = None"
    by (simp add: NewTokenManager_def)
  have h: "Header get_request = Some Map.empty" and h': "Header bare_request = None"
    by (simp_all add: get_request_def bare_request_def)
  from a a' h ApplyToRequest_header [of "tm (run_loop 3 ?i)" "bearer ''abc'' 3600" get_request Map.empty]
  have "ApplyToRequest (tm (run_loop 3 ?i)) get_request
          = Inr (get_request\<lparr>Header := Some [''Authorization'' \<mapsto> [''Bearer abc'']]\<rparr>)"
    by simp
  moreover from x ApplyToRequest_header [of "tm (run_loop 3 (NewTokenManager (always ?x) []))" ?x get_request Map.empty]
  have "GetAuthorizationHeader (tm (run_loop 3 (NewTokenManager (always ?x) []))) = ''Basic xyz''"
    by simp
  moreover from a h' ApplyToRequest_header [of "tm (run_loop 3 ?i)" "bearer ''abc'' 3600" bare_request Map.empty]
  have "ApplyToRequest (tm (run_loop 3 ?i)) bare_request = Inl ''assignment to entry in nil map''"
    by simp
  moreover from b ApplyToRequest_header [of "tm ?i" "bearer ''abc'' 3600" bare_request Map.empty]
  have "ApplyToRequest (tm ?i) bare_request = Inr bare_request \<and> GetAuthorizationHeader (tm ?i) = []"
    by simp
  ultimately show ?thesis by blast
qed

text \<open>
  Against C8 as stated: the credential \<open>abc\<close> of type \<open>Bearer\<close> is published and the
  request is \<^verbatim>\<open>&http.Request{}\<close> with its nil header map. \<^verbatim>\<open>ApplyToRequest\<close> panics
  and sets no header.
\<close>

theorem ApplyToRequest_panics_on_nil_header:
  "currentToken (tm (run_loop 3 (NewTokenManager (always (bearer ''abc'' 3600)) [])))
     = Some (bearer ''abc'' 3600) \<and>
   Header bare_request = None \<and>
   ApplyToRequest (tm (run_loop 3 (NewTokenManager (always (bearer ''abc'' 3600)) []))) bare_request
     = Inl ''assignment to entry in nil map''"
  by (simp add: ApplyToRequest_def GetAuthorizationHeader_def GetFullToken_def Header_Set_def
      bare_request_def always_def bearer_def run_simps)

section \<open>Construction\<close>

text \<open>
  Claim C9, as the code has it. \<^verbatim>\<open>NewTokenManager\<close> validates nothing and has no
  error result. For every list of options the manager it returns holds, for each
  field, the value of the last option of that kind or the default, whatever the sign of
  a duration; the loop is started at the acquisition; the buffer stays in place in
  every later state of the loop; and when no fixed interval is configured it enters the
  schedule of every generation as expiry minus buffer.
\<close>

theorem NewTokenManager_accepts_any_options:
  "tm (NewTokenManager p options) =
     \<lparr>provider = p, currentToken = None, refreshTimer = None, tokenReady = 0,
      bufferTime = configured_buffer (60 * Second) options,
      refreshTime = configured_refresh (59 * Minute) options,
      onNewToken = configured_callback None options\<rparr> \<and>
   pc (NewTokenManager p options) = ACQUIRING \<and>
   bufferTime (tm (run_loop n (NewTokenManager p options)))
     = configured_buffer (60 * Second) options \<and>
   (\<not> 0 < sint (configured_refresh (59 * Minute) options) \<and>
    pc (run_loop n (NewTokenManager p options)) = SCHEDULE (Some token) \<longrightarrow>
      pc (step (run_loop n (NewTokenManager p options)))
        = SCHEDULED_WAIT
            (let r = ExpiresIn token * Second - configured_buffer (60 * Second) options
             in if sint r < 0 then 5 * Second else r))"
proof -
  let ?i = "NewTokenManager p options"
  let ?s = "run_loop n ?i"
  have t: "tm ?i = \<lparr>provider = p, currentToken = None, refreshTimer = None, tokenReady = 0,
      bufferTime = configured_buffer (60 * Second) options,
      refreshTime = configured_refresh (59 * Minute) options,
      onNewToken = configured_callback None options\<rparr>"
    by (rule NewTokenManager_tm)
  have a: "pc ?i = ACQUIRING" by (simp add: NewTokenManager_def)
  have b: "bufferTime (tm ?s) = configured_buffer (60 * Second) options"
    and r: "refreshTime (tm ?s) = configured_refresh (59 * Minute) options"
    by (simp_all add: run_loop_config t)
  have c: "\<not> 0 < sint (configured_refresh (59 * Minute) options) \<and> pc ?s = SCHEDULE (Some token) \<longrightarrow>
      pc (step ?s) = SCHEDULED_WAIT
        (let r = ExpiresIn token * Second - configured_buffer (60 * Second) options
         in if sint r < 0 then 5 * Second else r)"
    using b r by (simp add: step_def schedule_def new_timer_def Let_def)
  from t a b c show ?thesis by blast
qed

text \<open>
  With no fixed interval and a buffer of minus one second, followed by a callback
  option: the buffer is stored and the first schedule is 3601 seconds for a token that
  expires in 3600.
\<close>

theorem NewTokenManager_accepts_any_options_witness:
  "bufferTime (tm (NewTokenManager (always (bearer ''abc'' 3600))
      [WithRefreshTime 0, WithBufferTime (- Second), WithOnNewToken (Some logging)])) = - Second \<and>
   pc (step (run_loop 4 (NewTokenManager (always (bearer ''abc'' 3600))
      [WithRefreshTime 0, WithBufferTime (- Second), WithOnNewToken (Some logging)])))
     = SCHEDULED_WAIT (3601 * Second)"
proof -
  let ?o = "[WithRefreshTime 0, WithBufferTime (- Second), WithOnNewToken (Some logging)]"
  let ?i = "NewTokenManager (always (bearer ''abc'' 3600)) ?o"
  have a: "\<not> 0 < sint (configured_refresh (59 * Minute) ?o)"
    and b: "pc (run_loop 4 ?i) = SCHEDULE (Some (bearer ''abc'' 3600))"
    and c: "configured_buffer (60 * Second) ?o = - Second"
    by (simp_all add: always_def logging_def run_simps)
  have d: "(let r = ExpiresIn (bearer ''abc'' 3600) * Second - (- Second)
            in if sint r < 0 then 5 * Second else r) = 3601 * Second"
    by (simp add: bearer_def Second_def)
  from a b NewTokenManager_accepts_any_options [of "always (bearer ''abc'' 3600)" ?o 4 "bearer ''abc'' 3600"]
  have "bufferTime (tm ?i) = configured_buffer (60 * Second) ?o \<and>
        pc (step (run_loop 4 ?i)) = SCHEDULED_WAIT
          (let r = ExpiresIn (bearer ''abc'' 3600) * Second - configured_buffer (60 * Second) ?o
           in if sint r < 0 then 5 * Second else r)"
    by simp
  then show ?thesis unfolding c d .
qed

text \<open>
  Against C9 as stated: the options in the order the example program gives them, with a
  buffer of minus one second. Construction accepts the value, starts the loop, and the
  value is still in place after the first generation.
\<close>

theorem NewTokenManager_accepts_negative_buffer:
  "sint (- Second) < 0 \<and>
   bufferTime (tm (NewTokenManager (always (bearer ''abc'' 3600))
      [WithRefreshTime (59 * Minute), WithBufferTime (- Second), WithOnNewToken (Some logging)]))
     = - Second \<and>
   pc (NewTokenManager (always (bearer ''abc'' 3600))
      [WithRefreshTime (59 * Minute), WithBufferTime (- Second), WithOnNewToken (Some logging)])
     = ACQUIRING \<and>
   bufferTime (tm (run_loop 7 (NewTokenManager (always (bearer ''abc'' 3600))
      [WithRefreshTime (59 * Minute), WithBufferTime (- Second), WithOnNewToken (Some logging)])))
     = - Second"
  by (simp add: always_def bearer_def logging_def run_simps)

section \<open>The result of EnsureValidToken\<close>

text \<open>
  Claim C10. Whenever \<^verbatim>\<open>EnsureValidToken\<close> returns, in any state and after any number
  of failed attempts, its result is the nil error.
\<close>

theorem EnsureValidToken_returns_nil:
  "EnsureValidToken k s = Some e \<Longrightarrow> e = None"
  by (auto simp: EnsureValidToken_def split: option.splits)

text \<open>After two failed attempts and a successful third, the call returns nil.\<close>

theorem EnsureValidToken_returns_nil_witness:
  "EnsureValidToken 7 (NewTokenManager (failing_until 2 (bearer ''abc'' 3600)) []) = Some None"
proof -
  have "EnsureValidToken 7 (NewTokenManager (failing_until 2 (bearer ''abc'' 3600)) []) \<noteq> None"
    by (simp add: EnsureValidToken_def WaitForToken_def failing_until_def run_simps)
  then obtain e
    where e: "EnsureValidToken 7 (NewTokenManager (failing_until 2 (bearer ''abc'' 3600)) []) = Some e"
    by blast
  from EnsureValidToken_returns_nil [OF e] e show ?thesis by simp
qed

end
